theory Spec2Isabelle
  imports Main "HOL-Library.Log_Nat"
begin

section \<open>JavaScript numbers and strings as the caption editor uses them\<close>

text \<open>
  \<^verbatim>\<open>src/src/App.js\<close> keeps the three fields of a caption as the strings the form
  delivers and turns them into numbers in two different ways: \<^verbatim>\<open>parseFloat(start)\<close> in the
  validation of \<^verbatim>\<open>addOrUpdateCaption\<close>, and the implicit conversion of
  \<^verbatim>\<open>seconds * 1000\<close> in \<^verbatim>\<open>formatTime\<close>. Both are written out here.

  A Number is \<open>NaN\<close>, an infinity or a finite double, the latter carried by its exact
  rational value. Negative zero is identified with zero: no comparison, no multiplication by
  \<open>1000\<close> and no \<^verbatim>\<open>Date\<close> accessor used by the program tells them apart. Strings are lists
  of code units below 256.
\<close>

datatype jsnum = NaN | NegInf | Fin rat | PosInf

text \<open>The relational operators: every comparison with \<open>NaN\<close> is false.\<close>

fun js_lt :: "jsnum \<Rightarrow> jsnum \<Rightarrow> bool" where
  "js_lt NaN _ = False"
| "js_lt _ NaN = False"
| "js_lt _ NegInf = False"
| "js_lt NegInf _ = True"
| "js_lt PosInf _ = False"
| "js_lt (Fin _) PosInf = True"
| "js_lt (Fin x) (Fin y) = (x < y)"

definition js_gt :: "jsnum \<Rightarrow> jsnum \<Rightarrow> bool" where
  "js_gt a b = js_lt b a"

definition js_le :: "jsnum \<Rightarrow> jsnum \<Rightarrow> bool" where
  "js_le a b = (a \<noteq> NaN \<and> b \<noteq> NaN \<and> \<not> js_lt b a)"

definition js_ge :: "jsnum \<Rightarrow> jsnum \<Rightarrow> bool" where
  "js_ge a b = js_le b a"

subsection \<open>Rounding to a double\<close>

definition pow2 :: "int \<Rightarrow> rat" where
  "pow2 k = (if 0 \<le> k then 2 ^ nat k else 1 / 2 ^ nat (- k))"

definition floor_log2 :: "rat \<Rightarrow> int" where
  \<comment> \<open>for \<open>0 < a\<close>: the \<open>e\<close> with \<open>2 ^ e \<le> a < 2 ^ (e + 1)\<close>\<close>
  "floor_log2 a = (if 1 \<le> a then bitlen \<lfloor>a\<rfloor> - 1 else - bitlen (\<lceil>1 / a\<rceil> - 1))"

definition round_half_even :: "rat \<Rightarrow> int" where
  "round_half_even x =
     (if x - of_int \<lfloor>x\<rfloor> < 1 / 2 then \<lfloor>x\<rfloor>
      else if 1 / 2 < x - of_int \<lfloor>x\<rfloor> then \<lfloor>x\<rfloor> + 1
      else if even \<lfloor>x\<rfloor> then \<lfloor>x\<rfloor> else \<lfloor>x\<rfloor> + 1)"

definition ulp :: "rat \<Rightarrow> rat" where
  \<comment> \<open>the spacing of the doubles around \<open>a\<close>: 53 bits, exponents from -1022 on\<close>
  "ulp a = pow2 (max (floor_log2 a) (- 1022) - 52)"

definition round_to :: "rat \<Rightarrow> rat \<Rightarrow> rat" where
  \<comment> \<open>the multiple of \<open>u\<close> nearest to \<open>a\<close>, ties to the even multiple\<close>
  "round_to u a = of_int (round_half_even (a / u)) * u"

definition overflows :: "rat \<Rightarrow> bool" where
  \<comment> \<open>for \<open>0 < a\<close>: rounding \<open>a\<close> reaches \<open>2 ^ 1024\<close>\<close>
  "overflows a =
     (if 1024 \<le> floor_log2 a then True
      else if floor_log2 a = 1023 then round_half_even (a / ulp a) = 2 ^ 53
      else False)"

definition double_of_rat :: "rat \<Rightarrow> jsnum" where
  \<comment> \<open>round to nearest, ties to even; what reaches \<open>2 ^ 1024\<close> is infinite\<close>
  "double_of_rat x =
     (if x = 0 then Fin 0
      else if overflows \<bar>x\<bar> then (if 0 < x then PosInf else NegInf)
      else Fin (if 0 < x then round_to (ulp \<bar>x\<bar>) \<bar>x\<bar>
                else - round_to (ulp \<bar>x\<bar>) \<bar>x\<bar>))"

fun js_times :: "jsnum \<Rightarrow> jsnum \<Rightarrow> jsnum" where
  "js_times NaN _ = NaN"
| "js_times _ NaN = NaN"
| "js_times (Fin x) (Fin y) = double_of_rat (x * y)"
| "js_times (Fin x) PosInf = (if x = 0 then NaN else if 0 < x then PosInf else NegInf)"
| "js_times (Fin x) NegInf = (if x = 0 then NaN else if 0 < x then NegInf else PosInf)"
| "js_times PosInf (Fin y) = (if y = 0 then NaN else if 0 < y then PosInf else NegInf)"
| "js_times NegInf (Fin y) = (if y = 0 then NaN else if 0 < y then NegInf else PosInf)"
| "js_times PosInf PosInf = PosInf"
| "js_times NegInf NegInf = PosInf"
| "js_times PosInf NegInf = NegInf"
| "js_times NegInf PosInf = NegInf"

subsection \<open>Numeric strings\<close>

definition isWhiteSpace :: "char \<Rightarrow> bool" where
  \<comment> \<open>tab, line feed, vertical tab, form feed, carriage return, space, no-break space\<close>
  "isWhiteSpace c = (of_char c \<in> {9, 10, 11, 12, 13, 32, 160 :: int})"

definition digitVal :: "char \<Rightarrow> int option" where
  "digitVal c =
     (let n = (of_char c :: int) in
      if 48 \<le> n \<and> n \<le> 57 then Some (n - 48)
      else if 97 \<le> n \<and> n \<le> 102 then Some (n - 87)
      else if 65 \<le> n \<and> n \<le> 70 then Some (n - 55)
      else None)"

definition isDigitOf :: "int \<Rightarrow> char \<Rightarrow> bool" where
  "isDigitOf radix c = (case digitVal c of None \<Rightarrow> False | Some d \<Rightarrow> d < radix)"

definition digitsVal :: "int \<Rightarrow> string \<Rightarrow> int" where
  "digitsVal radix ds =
     foldl (\<lambda>acc c. acc * radix + (case digitVal c of None \<Rightarrow> 0 | Some d \<Rightarrow> d)) 0 ds"

definition scanSign :: "string \<Rightarrow> bool \<times> string" where
  \<comment> \<open>an optional sign; the flag says that it was a minus\<close>
  "scanSign s =
     (case s of
        c # r \<Rightarrow> if c = CHR ''-'' then (True, r) else if c = CHR ''+'' then (False, r)
                 else (False, s)
      | [] \<Rightarrow> (False, s))"

definition scanExponent :: "string \<Rightarrow> int \<times> string" where
  \<comment> \<open>an exponent part is read only when it is complete: \<open>e\<close>, an optional sign, a digit\<close>
  "scanExponent s =
     (case s of
        c # r \<Rightarrow>
          if c = CHR ''e'' \<or> c = CHR ''E'' then
            (let (neg, r1) = scanSign r;
                 ds = takeWhile (isDigitOf 10) r1
             in if ds = [] then (0, s)
                else ((if neg then - digitsVal 10 ds else digitsVal 10 ds),
                      dropWhile (isDigitOf 10) r1))
          else (0, s)
      | [] \<Rightarrow> (0, s))"

definition pow10 :: "int \<Rightarrow> rat" where
  "pow10 k = (if 0 \<le> k then 10 ^ nat k else 1 / 10 ^ nat (- k))"

definition scanDecimal :: "string \<Rightarrow> (jsnum \<times> string) option" where
  \<comment> \<open>the longest prefix that is a \<^verbatim>\<open>StrDecimalLiteral\<close>, its value, and what follows it\<close>
  "scanDecimal s =
     (let (neg, r0) = scanSign s in
      if take 8 r0 = ''Infinity'' then Some (if neg then NegInf else PosInf, drop 8 r0)
      else
        let ip = takeWhile (isDigitOf 10) r0;
            r1 = dropWhile (isDigitOf 10) r0;
            dot = (r1 \<noteq> [] \<and> hd r1 = CHR ''.'');
            fp = (if dot then takeWhile (isDigitOf 10) (tl r1) else []);
            r2 = (if dot then dropWhile (isDigitOf 10) (tl r1) else r1)
        in if ip = [] \<and> fp = [] then None
           else
             let (ex, r3) = scanExponent r2;
                 mv = of_int (digitsVal 10 (ip @ fp)) * pow10 (ex - int (length fp))
             in Some (double_of_rat (if neg then - mv else mv), r3))"

definition trimStart :: "string \<Rightarrow> string" where
  "trimStart s = dropWhile isWhiteSpace s"

definition trim :: "string \<Rightarrow> string" where
  "trim s = rev (dropWhile isWhiteSpace (rev (dropWhile isWhiteSpace s)))"

definition scanRadix :: "int \<Rightarrow> string \<Rightarrow> jsnum" where
  \<comment> \<open>the digits after \<^verbatim>\<open>0x\<close>, \<^verbatim>\<open>0o\<close> or \<^verbatim>\<open>0b\<close>\<close>
  "scanRadix radix ds =
     (if ds \<noteq> [] \<and> list_all (isDigitOf radix) ds
      then double_of_rat (of_int (digitsVal radix ds)) else NaN)"

definition stringToNumber :: "string \<Rightarrow> jsnum" where
  \<comment> \<open>the conversion that \<^verbatim>\<open>*\<close> applies to a string operand\<close>
  "stringToNumber s =
     (let t = trim s in
      if t = [] then Fin 0
      else if take 2 t = ''0x'' \<or> take 2 t = ''0X'' then scanRadix 16 (drop 2 t)
      else if take 2 t = ''0o'' \<or> take 2 t = ''0O'' then scanRadix 8 (drop 2 t)
      else if take 2 t = ''0b'' \<or> take 2 t = ''0B'' then scanRadix 2 (drop 2 t)
      else (case scanDecimal t of
              Some (v, []) \<Rightarrow> v
            | _ \<Rightarrow> NaN))"

definition parseFloatString :: "string \<Rightarrow> jsnum" where
  \<comment> \<open>\<^verbatim>\<open>parseFloat\<close>: leading white space is dropped, trailing text is ignored\<close>
  "parseFloatString s = (case scanDecimal (trimStart s) of Some (v, _) \<Rightarrow> v | None \<Rightarrow> NaN)"

subsection \<open>What a number input delivers\<close>

text \<open>
  The start and end fields of the form are \<^verbatim>\<open><TextField type="number">\<close>. The value such an
  input hands to \<^verbatim>\<open>onChange\<close> is sanitised by the browser: it is the text typed when that
  is a valid floating-point number (an optional minus sign, digits and or a fraction of a
  dot and digits, an optional exponent), and the empty string otherwise.
\<close>

definition validExponent :: "string \<Rightarrow> bool" where
  "validExponent r =
     (case r of
        [] \<Rightarrow> False
      | c # r1 \<Rightarrow>
          (c = CHR ''e'' \<or> c = CHR ''E'') \<and>
          (let ds = (case r1 of
                       [] \<Rightarrow> r1
                     | x # y \<Rightarrow> if x = CHR ''-'' \<or> x = CHR ''+'' then y else r1)
           in ds \<noteq> [] \<and> list_all (isDigitOf 10) ds))"

definition validFloatingPointNumber :: "string \<Rightarrow> bool" where
  "validFloatingPointNumber s =
     (let r0 = (if s \<noteq> [] \<and> hd s = CHR ''-'' then tl s else s);
          ip = takeWhile (isDigitOf 10) r0;
          r1 = dropWhile (isDigitOf 10) r0;
          dot = (r1 \<noteq> [] \<and> hd r1 = CHR ''.'');
          fp = (if dot then takeWhile (isDigitOf 10) (tl r1) else []);
          r2 = (if dot then dropWhile (isDigitOf 10) (tl r1) else r1)
      in (if dot then fp \<noteq> [] else ip \<noteq> []) \<and> (r2 = [] \<or> validExponent r2))"

definition numberInputValue :: "string \<Rightarrow> string" where
  \<comment> \<open>the \<^verbatim>\<open>e.target.value\<close> of a number input into which \<open>typed\<close> was typed\<close>
  "numberInputValue typed = (if validFloatingPointNumber typed then typed else [])"

section \<open>The caption store\<close>

text \<open>
  A field of a caption or of the draft is a string, or \<^verbatim>\<open>undefined\<close> when the object has no
  such property.
\<close>

datatype jsval = Undefined | Str string

definition falsy :: "jsval \<Rightarrow> bool" where
  \<comment> \<open>\<^verbatim>\<open>!v\<close>\<close>
  "falsy v = (case v of Undefined \<Rightarrow> True | Str s \<Rightarrow> s = [])"

definition parseFloat :: "jsval \<Rightarrow> jsnum" where
  "parseFloat v = (case v of Undefined \<Rightarrow> NaN | Str s \<Rightarrow> parseFloatString s)"

definition toNumber :: "jsval \<Rightarrow> jsnum" where
  "toNumber v = (case v of Undefined \<Rightarrow> NaN | Str s \<Rightarrow> stringToNumber s)"

definition toString :: "jsval \<Rightarrow> string" where
  "toString v = (case v of Undefined \<Rightarrow> ''undefined'' | Str s \<Rightarrow> s)"

record caption =
  caption_text :: jsval
  caption_start :: jsval
  caption_end :: jsval

text \<open>
  An array may be sparse: writing past its end leaves holes, which \<^verbatim>\<open>some\<close>,
  \<^verbatim>\<open>filter\<close> and \<^verbatim>\<open>forEach\<close> skip and which spreading turns into \<^verbatim>\<open>undefined\<close>
  elements. An element of \<^verbatim>\<open>captions\<close> is therefore a hole, \<^verbatim>\<open>undefined\<close> (\<open>Elem None\<close>)
  or a caption.
\<close>

datatype 'a slot = Hole | Elem 'a

type_synonym captions = "caption option slot list"

datatype exn = TypeError

record state =
  videoURL :: string
  captions :: captions
  currentCaption :: "caption option"
  videoError :: bool
  editingIndex :: "nat option"

definition emptyCaption :: caption where
  "emptyCaption = \<lparr>caption_text = Str [], caption_start = Str [], caption_end = Str []\<rparr>"

definition initial :: state where
  "initial = \<lparr>videoURL = [], captions = [], currentCaption = Some emptyCaption,
     videoError = False, editingIndex = None\<rparr>"

subsection \<open>Array operations\<close>

definition spread :: "'a option slot list \<Rightarrow> 'a option slot list" where
  \<comment> \<open>\<^verbatim>\<open>[...xs]\<close>\<close>
  "spread xs = map (\<lambda>x. case x of Hole \<Rightarrow> Elem None | Elem v \<Rightarrow> Elem v) xs"

definition array_get :: "'a option slot list \<Rightarrow> nat \<Rightarrow> 'a option" where
  \<comment> \<open>\<^verbatim>\<open>xs[i]\<close>: \<^verbatim>\<open>undefined\<close> at a hole and out of range\<close>
  "array_get xs i =
     (if i < length xs then (case xs ! i of Hole \<Rightarrow> None | Elem v \<Rightarrow> v) else None)"

definition array_set :: "'a slot list \<Rightarrow> nat \<Rightarrow> 'a \<Rightarrow> 'a slot list" where
  \<comment> \<open>\<^verbatim>\<open>xs[i] = v\<close>: past the end the array grows, with holes up to \<open>i\<close>\<close>
  "array_set xs i v =
     (if i < length xs then xs[i := Elem v]
      else xs @ replicate (i - length xs) Hole @ [Elem v])"

fun array_some :: "('a \<Rightarrow> nat \<Rightarrow> exn + bool) \<Rightarrow> nat \<Rightarrow> 'a slot list \<Rightarrow> exn + bool" where
  \<comment> \<open>\<^verbatim>\<open>xs.some(f)\<close> from index \<open>i\<close> on: stops at the first \<^verbatim>\<open>true\<close> and at a throw\<close>
  "array_some f i [] = Inr False"
| "array_some f i (Hole # xs) = array_some f (Suc i) xs"
| "array_some f i (Elem v # xs) =
     (case f v i of
        Inl e \<Rightarrow> Inl e
      | Inr True \<Rightarrow> Inr True
      | Inr False \<Rightarrow> array_some f (Suc i) xs)"

fun array_filter :: "('a \<Rightarrow> nat \<Rightarrow> bool) \<Rightarrow> nat \<Rightarrow> 'a slot list \<Rightarrow> 'a slot list" where
  \<comment> \<open>\<^verbatim>\<open>xs.filter(f)\<close> from index \<open>i\<close> on: the result is dense\<close>
  "array_filter f i [] = []"
| "array_filter f i (Hole # xs) = array_filter f (Suc i) xs"
| "array_filter f i (Elem v # xs) =
     (if f v i then Elem v # array_filter f (Suc i) xs else array_filter f (Suc i) xs)"

subsection \<open>The handlers\<close>

datatype notice = ToastError string | ToastSuccess string | Thrown exn

definition handleCaptionChange :: "string \<Rightarrow> string \<Rightarrow> state \<Rightarrow> state" where
  \<comment> \<open>\<^verbatim>\<open>setCurrentCaption((prev) => ({ ...prev, [name]: value }))\<close>\<close>
  "handleCaptionChange name v st =
     (let prev = (case currentCaption st of
                    None \<Rightarrow> \<lparr>caption_text = Undefined, caption_start = Undefined,
                              caption_end = Undefined\<rparr>
                  | Some c \<Rightarrow> c)
      in st\<lparr>currentCaption := Some
            (if name = ''text'' then prev\<lparr>caption_text := Str v\<rparr>
             else if name = ''start'' then prev\<lparr>caption_start := Str v\<rparr>
             else if name = ''end'' then prev\<lparr>caption_end := Str v\<rparr>
             else prev)\<rparr>)"

definition isOverlapping ::
  "nat option \<Rightarrow> jsnum \<Rightarrow> jsnum \<Rightarrow> caption option \<Rightarrow> nat \<Rightarrow> exn + bool" where
  \<comment> \<open>the callback of \<^verbatim>\<open>captions.some\<close>; reading a field of \<^verbatim>\<open>undefined\<close> throws\<close>
  "isOverlapping editing startTime endTime cap index =
     (if Some index = editing then Inr False
      else case cap of
        None \<Rightarrow> Inl TypeError
      | Some c \<Rightarrow> Inr
          ((js_ge startTime (parseFloat (caption_start c)) \<and>
            js_lt startTime (parseFloat (caption_end c))) \<or>
           (js_gt endTime (parseFloat (caption_start c)) \<and>
            js_le endTime (parseFloat (caption_end c))) \<or>
           (js_le startTime (parseFloat (caption_start c)) \<and>
            js_ge endTime (parseFloat (caption_end c)))))"

definition addOrUpdateCaption :: "state \<Rightarrow> notice \<times> state" where
  "addOrUpdateCaption st =
     (case currentCaption st of
        None \<Rightarrow> (Thrown TypeError, st)
      | Some cur \<Rightarrow>
          if falsy (caption_text cur) \<or> falsy (caption_start cur) \<or> falsy (caption_end cur)
          then (ToastError ''Please fill all fields.'', st)
          else
            let startTime = parseFloat (caption_start cur);
                endTime = parseFloat (caption_end cur)
            in if js_ge startTime endTime
               then (ToastError ''Start time must be less than end time.'', st)
               else
                 (case array_some (isOverlapping (editingIndex st) startTime endTime) 0
                         (captions st) of
                    Inl e \<Rightarrow> (Thrown e, st)
                  | Inr True \<Rightarrow>
                      (ToastError
                         ''The specified time range overlaps with an existing caption.'', st)
                  | Inr False \<Rightarrow>
                      (case editingIndex st of
                         Some i \<Rightarrow>
                           (ToastSuccess ''Caption updated successfully!'',
                            st\<lparr>captions := array_set (spread (captions st)) i (Some cur),
                               editingIndex := None,
                               currentCaption := Some emptyCaption\<rparr>)
                       | None \<Rightarrow>
                           (ToastSuccess ''Caption added successfully!'',
                            st\<lparr>captions := spread (captions st) @ [Elem (Some cur)],
                               currentCaption := Some emptyCaption\<rparr>))))"

definition handleEditCaption :: "nat \<Rightarrow> state \<Rightarrow> state" where
  "handleEditCaption index st =
     st\<lparr>currentCaption := array_get (captions st) index, editingIndex := Some index\<rparr>"

definition handleDeleteCaption :: "nat \<Rightarrow> state \<Rightarrow> notice \<times> state" where
  "handleDeleteCaption index st =
     (ToastSuccess ''Caption deleted successfully!'',
      st\<lparr>captions := array_filter (\<lambda>_ idx. idx \<noteq> index) 0 (captions st)\<rparr>)"

definition videoURL_effect :: "state \<Rightarrow> state" where
  \<comment> \<open>the body of the effect that depends on \<^verbatim>\<open>videoURL\<close>\<close>
  "videoURL_effect st =
     st\<lparr>captions := [], currentCaption := Some emptyCaption, videoError := False\<rparr>"

definition setVideoURL :: "string \<Rightarrow> state \<Rightarrow> state" where
  \<comment> \<open>the debounced \<^verbatim>\<open>setVideoURL(value)\<close>; the effect runs when the value differs\<close>
  "setVideoURL v st = (if v = videoURL st then st else videoURL_effect (st\<lparr>videoURL := v\<rparr>))"

definition handleVideoError :: "state \<Rightarrow> notice \<times> state" where
  "handleVideoError st =
     (ToastError ''Failed to load the video. Please check the URL.'', st\<lparr>videoError := True\<rparr>)"

text \<open>What the user can do to the component, and a session as a list of such actions.\<close>

datatype action =
    CaptionChange string string
  | AddOrUpdate
  | EditCaption nat
  | DeleteCaption nat
  | VideoURL string
  | VideoFails

fun step :: "state \<Rightarrow> action \<Rightarrow> state" where
  "step st (CaptionChange name v) = handleCaptionChange name v st"
| "step st AddOrUpdate = snd (addOrUpdateCaption st)"
| "step st (EditCaption i) = handleEditCaption i st"
| "step st (DeleteCaption i) = snd (handleDeleteCaption i st)"
| "step st (VideoURL v) = setVideoURL v st"
| "step st VideoFails = snd (handleVideoError st)"

definition run :: "action list \<Rightarrow> state" where
  "run acts = foldl step initial acts"

definition deliverable :: "action \<Rightarrow> bool" where
  \<comment> \<open>a change of the start or end field carries a value that a number input delivers\<close>
  "deliverable a =
     (case a of
        CaptionChange name v \<Rightarrow>
          (if name = ''start'' \<or> name = ''end''
           then v = [] \<or> validFloatingPointNumber v else True)
      | _ \<Rightarrow> True)"

text \<open>
  The overlap test in the words of the specification: \<open>[s1, e1)\<close> and \<open>[s2, e2)\<close> overlap
  iff \<^verbatim>\<open>s1 < e2 && s2 < e1\<close>.
\<close>

definition intervals_overlap :: "jsnum \<Rightarrow> jsnum \<Rightarrow> jsnum \<Rightarrow> jsnum \<Rightarrow> bool" where
  "intervals_overlap s1 e1 s2 e2 = (js_lt s1 e2 \<and> js_lt s2 e1)"

section \<open>The track encoder\<close>

definition newline :: string where
  "newline = [CHR 0x0A]"

function stringOfNat :: "nat \<Rightarrow> string" where
  \<comment> \<open>\<^verbatim>\<open>String(n)\<close> for a natural number\<close>
  "stringOfNat n =
     (if n < 10 then [''0123456789'' ! n]
      else stringOfNat (n div 10) @ [''0123456789'' ! (n mod 10)])"
  by pat_completeness auto
termination
  by (relation "measure id") auto

declare stringOfNat.simps [simp del]

definition padStart :: "nat \<Rightarrow> char \<Rightarrow> string \<Rightarrow> string" where
  \<comment> \<open>\<^verbatim>\<open>s.padStart(n, c)\<close> with a fill string of one character\<close>
  "padStart n c s = replicate (n - length s) c @ s"

definition newDate :: "jsnum \<Rightarrow> int option" where
  \<comment> \<open>the time value of \<^verbatim>\<open>new Date(t)\<close>: an integer within 8.64e15 ms, or none (Invalid Date)\<close>
  "newDate t =
     (case t of
        Fin x \<Rightarrow> if \<bar>x\<bar> \<le> 8640000000000000
                 then Some (if 0 \<le> x then \<lfloor>x\<rfloor> else \<lceil>x\<rceil>) else None
      | _ \<Rightarrow> None)"

definition dateField :: "int option \<Rightarrow> (int \<Rightarrow> int) \<Rightarrow> string" where
  \<comment> \<open>\<^verbatim>\<open>String(date.getUTC...())\<close>: the accessors of an invalid date return \<open>NaN\<close>\<close>
  "dateField d f = (case d of None \<Rightarrow> ''NaN'' | Some tv \<Rightarrow> stringOfNat (nat (f tv)))"

definition getUTCHours :: "int \<Rightarrow> int" where
  "getUTCHours tv = (tv div 3600000) mod 24"

definition getUTCMinutes :: "int \<Rightarrow> int" where
  "getUTCMinutes tv = (tv div 60000) mod 60"

definition getUTCSeconds :: "int \<Rightarrow> int" where
  "getUTCSeconds tv = (tv div 1000) mod 60"

definition getUTCMilliseconds :: "int \<Rightarrow> int" where
  "getUTCMilliseconds tv = tv mod 1000"

definition formatDate :: "int option \<Rightarrow> string" where
  \<comment> \<open>the four padded fields of \<^verbatim>\<open>formatTime\<close>, from the date\<close>
  "formatDate date =
     (let hh = padStart 2 CHR ''0'' (dateField date getUTCHours);
          mm = padStart 2 CHR ''0'' (dateField date getUTCMinutes);
          ss = padStart 2 CHR ''0'' (dateField date getUTCSeconds);
          ms = padStart 3 CHR ''0'' (dateField date getUTCMilliseconds)
      in hh @ '':'' @ mm @ '':'' @ ss @ ''.'' @ ms)"

definition formatTime :: "jsnum \<Rightarrow> string" where
  \<comment> \<open>the parameter is the Number that \<^verbatim>\<open>seconds * 1000\<close> makes of \<^verbatim>\<open>seconds\<close>\<close>
  "formatTime seconds = formatDate (newDate (js_times seconds (Fin 1000)))"

fun vttCues :: "nat \<Rightarrow> captions \<Rightarrow> string \<Rightarrow> exn + string" where
  \<comment> \<open>the \<^verbatim>\<open>forEach\<close> of \<^verbatim>\<open>generateVTT\<close> from index \<open>i\<close> on, appending to \<open>vtt\<close>\<close>
  "vttCues i [] vtt = Inr vtt"
| "vttCues i (Hole # xs) vtt = vttCues (Suc i) xs vtt"
| "vttCues i (Elem None # xs) vtt = Inl TypeError"
| "vttCues i (Elem (Some c) # xs) vtt =
     (let startTime = formatTime (toNumber (caption_start c));
          endTime = formatTime (toNumber (caption_end c))
      in vttCues (Suc i) xs
           (vtt @ stringOfNat (i + 1) @ newline @ startTime @ '' --> '' @ endTime @ newline @
            toString (caption_text c) @ newline @ newline))"

definition generateVTT :: "state \<Rightarrow> exn + string" where
  \<comment> \<open>the text of the track; the object URL made of it is outside the model\<close>
  "generateVTT st = vttCues 0 (captions st) (''WEBVTT'' @ newline @ newline)"

section \<open>Notions used in the verification\<close>

text \<open>
  The test that \<^verbatim>\<open>isOverlapping\<close> applies to the parsed draft \<open>(s, e)\<close> and a stored
  caption \<open>(cs, ce)\<close>, and the invariant of the store: every stored caption passed the
  checks of \<^verbatim>\<open>addOrUpdateCaption\<close>, and no two of them overlap.
\<close>

definition containment_test :: "jsnum \<Rightarrow> jsnum \<Rightarrow> jsnum \<Rightarrow> jsnum \<Rightarrow> bool" where
  "containment_test s e cs ce =
     ((js_ge s cs \<and> js_lt s ce) \<or> (js_gt e cs \<and> js_le e ce) \<or> (js_le s cs \<and> js_ge e ce))"

definition stored_ok :: "caption option slot \<Rightarrow> bool" where
  "stored_ok x =
     (case x of
        Elem (Some c) \<Rightarrow>
          \<not> falsy (caption_text c) \<and> \<not> falsy (caption_start c) \<and> \<not> falsy (caption_end c) \<and>
          \<not> js_ge (parseFloat (caption_start c)) (parseFloat (caption_end c))
      | _ \<Rightarrow> True)"

definition apart :: "caption option slot \<Rightarrow> caption option slot \<Rightarrow> bool" where
  "apart x y =
     (case (x, y) of
        (Elem (Some a), Elem (Some b)) \<Rightarrow>
          \<not> intervals_overlap (parseFloat (caption_start a)) (parseFloat (caption_end a))
              (parseFloat (caption_start b)) (parseFloat (caption_end b))
      | _ \<Rightarrow> True)"

definition pairwise_apart :: "captions \<Rightarrow> bool" where
  "pairwise_apart xs = (\<forall>i<length xs. \<forall>j<length xs. i \<noteq> j \<longrightarrow> apart (xs ! i) (xs ! j))"

definition store_inv :: "state \<Rightarrow> bool" where
  "store_inv st = (list_all stored_ok (captions st) \<and> pairwise_apart (captions st))"

definition field_ok :: "jsval \<Rightarrow> bool" where
  \<comment> \<open>a start or end field as the form can have filled it\<close>
  "field_ok v = (case v of Undefined \<Rightarrow> True | Str s \<Rightarrow> s = [] \<or> validFloatingPointNumber s)"

definition times_ok :: "caption option \<Rightarrow> bool" where
  "times_ok c =
     (case c of None \<Rightarrow> True | Some d \<Rightarrow> field_ok (caption_start d) \<and> field_ok (caption_end d))"

definition slot_times_ok :: "caption option slot \<Rightarrow> bool" where
  "slot_times_ok x = (case x of Hole \<Rightarrow> True | Elem c \<Rightarrow> times_ok c)"

definition form_inv :: "state \<Rightarrow> bool" where
  "form_inv st = (times_ok (currentCaption st) \<and> list_all slot_times_ok (captions st))"

section \<open>Example sessions\<close>

text \<open>
  The scenario of the specification: a video is opened (the form is shown only then), a
  caption \<^verbatim>\<open>{text: "Hi", start: 1, end: 3}\<close> is added, and a second draft is typed into
  the form.
\<close>

definition opened :: state where
  "opened = initial\<lparr>videoURL := ''a.mp4''\<rparr>"

definition type_draft :: "string \<Rightarrow> string \<Rightarrow> string \<Rightarrow> action list" where
  "type_draft t s e =
     [CaptionChange ''text'' t, CaptionChange ''start'' s, CaptionChange ''end'' e]"

definition hi :: caption where
  "hi = \<lparr>caption_text = Str ''Hi'', caption_start = Str ''1'', caption_end = Str ''3''\<rparr>"

definition bye :: "string \<Rightarrow> string \<Rightarrow> caption" where
  "bye s e = \<lparr>caption_text = Str ''Bye'', caption_start = Str s, caption_end = Str e\<rparr>"

definition hi_session :: "action list" where
  "hi_session = VideoURL ''a.mp4'' # type_draft ''Hi'' ''1'' ''3'' @ [AddOrUpdate]"

definition bye_draft :: "string \<Rightarrow> string \<Rightarrow> action list" where
  "bye_draft s e = type_draft ''Bye'' s e"

definition stale_cursor_session :: "action list" where
  \<comment> \<open>two captions, the second one selected, the first one deleted, the draft retimed\<close>
  "stale_cursor_session =
     hi_session @ bye_draft ''3'' ''4'' @ [AddOrUpdate, EditCaption 1, DeleteCaption 0,
       CaptionChange ''start'' ''5'', CaptionChange ''end'' ''7'', AddOrUpdate]"

definition sparse_session :: "action list" where
  \<comment> \<open>two captions, the second one selected, both deleted, the draft committed\<close>
  "sparse_session =
     hi_session @ bye_draft ''3'' ''4'' @
       [AddOrUpdate, EditCaption 1, DeleteCaption 0, DeleteCaption 0, AddOrUpdate]"

section \<open>Properties of the comparisons and of the array operations\<close>

lemma containment_iff_overlap:
  "js_lt s e \<Longrightarrow> \<not> js_ge cs ce \<Longrightarrow> containment_test s e cs ce = intervals_overlap s e cs ce"
  by (cases s; cases e; cases cs; cases ce)
    (auto simp: containment_test_def intervals_overlap_def js_ge_def js_le_def js_gt_def)

lemma no_containment_no_overlap:
  "\<not> js_ge s e \<Longrightarrow> \<not> js_ge cs ce \<Longrightarrow> \<not> containment_test s e cs ce \<Longrightarrow>
   \<not> intervals_overlap s e cs ce"
  by (cases s; cases e; cases cs; cases ce)
    (auto simp: containment_test_def intervals_overlap_def js_ge_def js_le_def js_gt_def)

lemma intervals_overlap_sym: "intervals_overlap a b c d = intervals_overlap c d a b"
  by (auto simp: intervals_overlap_def)

lemma apart_sym: "apart x y = apart y x"
  by (auto simp: apart_def intervals_overlap_sym split: slot.splits option.splits)

lemma apart_Hole [simp]: "apart Hole y" "apart x Hole" "apart (Elem None) y" "apart x (Elem None)"
  by (auto simp: apart_def split: slot.splits option.splits)

lemma isOverlapping_Some:
  "isOverlapping ed s e (Some c) i =
     Inr (Some i \<noteq> ed \<and>
          containment_test s e (parseFloat (caption_start c)) (parseFloat (caption_end c)))"
  by (simp add: isOverlapping_def containment_test_def)

lemma array_some_False_nth:
  "array_some f k xs = Inr False \<Longrightarrow> j < length xs \<Longrightarrow> xs ! j = Elem v \<Longrightarrow>
   f v (k + j) = Inr False"
proof (induction xs arbitrary: k j)
  case Nil
  then show ?case by simp
next
  case (Cons x xs)
  show ?case
  proof (cases j)
    case 0
    with Cons.prems show ?thesis
      by (auto split: sum.splits bool.splits)
  next
    case (Suc j')
    from Cons.prems have "array_some f (Suc k) xs = Inr False"
      by (cases x) (auto split: sum.splits bool.splits)
    from Cons.IH [OF this, of j'] Cons.prems Suc show ?thesis by simp
  qed
qed

lemma array_some_total:
  "(\<And>j v. j < length xs \<Longrightarrow> xs ! j = Elem v \<Longrightarrow> f v (k + j) = Inr (g v (k + j))) \<Longrightarrow>
   array_some f k xs = Inr (\<exists>j<length xs. \<exists>v. xs ! j = Elem v \<and> g v (k + j))"
proof (induction xs arbitrary: k)
  case Nil
  then show ?case by simp
next
  case (Cons x xs)
  have rest: "array_some f (Suc k) xs = Inr (\<exists>j<length xs. \<exists>v. xs ! j = Elem v \<and> g v (Suc k + j))"
  proof (rule Cons.IH)
    fix j v assume "j < length xs" "xs ! j = Elem v"
    then show "f v (Suc k + j) = Inr (g v (Suc k + j))"
      using Cons.prems [of "Suc j" v] by simp
  qed
  have ex: "(\<exists>j<length (x # xs). \<exists>v. (x # xs) ! j = Elem v \<and> g v (k + j)) \<longleftrightarrow>
    (\<exists>v. x = Elem v \<and> g v k) \<or> (\<exists>j<length xs. \<exists>v. xs ! j = Elem v \<and> g v (Suc k + j))"
    by (auto simp: less_Suc_eq_0_disj)
  show ?case
  proof (cases x)
    case Hole
    with rest ex show ?thesis by simp
  next
    case (Elem v)
    with Cons.prems [of 0 v] have "f v k = Inr (g v k)" by simp
    with rest ex Elem show ?thesis by (cases "g v k") auto
  qed
qed


lemma length_spread [simp]: "length (spread xs) = length xs"
  by (simp add: spread_def)

lemma apart_spread_nth:
  "i < length xs \<Longrightarrow> apart (spread xs ! i) y = apart (xs ! i) y"
  by (cases "xs ! i") (simp_all add: spread_def)

lemma apart_spread_nth2:
  "j < length xs \<Longrightarrow> apart x (spread xs ! j) = apart x (xs ! j)"
  by (cases "xs ! j") (simp_all add: spread_def)

lemma pairwise_apart_spread: "pairwise_apart (spread xs) = pairwise_apart xs"
  unfolding pairwise_apart_def
  by (simp add: apart_spread_nth apart_spread_nth2)

lemma stored_ok_spread: "list_all stored_ok (spread xs) = list_all stored_ok xs"
  by (induction xs) (auto simp: spread_def stored_ok_def split: slot.splits)

lemma pairwise_apart_snoc:
  assumes "pairwise_apart xs" and "\<And>j. j < length xs \<Longrightarrow> apart (xs ! j) y"
  shows "pairwise_apart (xs @ [y])"
  unfolding pairwise_apart_def
proof (intro allI impI)
  fix i j assume "i < length (xs @ [y])" "j < length (xs @ [y])" "i \<noteq> j"
  then consider "i < length xs" "j < length xs" | "i < length xs" "j = length xs"
    | "i = length xs" "j < length xs"
    by fastforce
  then show "apart ((xs @ [y]) ! i) ((xs @ [y]) ! j)"
  proof cases
    case 1
    with assms(1) \<open>i \<noteq> j\<close> show ?thesis by (simp add: pairwise_apart_def nth_append)
  next
    case 2
    with assms(2) show ?thesis by (simp add: nth_append)
  next
    case 3
    with assms(2) [of j] show ?thesis by (simp add: nth_append apart_sym [of y])
  qed
qed

lemma pairwise_apart_update:
  assumes "pairwise_apart xs" and "i < length xs"
    and "\<And>j. j < length xs \<Longrightarrow> j \<noteq> i \<Longrightarrow> apart (xs ! j) y"
  shows "pairwise_apart (xs[i := y])"
  unfolding pairwise_apart_def
proof (intro allI impI)
  fix a b assume ab: "a < length (xs[i := y])" "b < length (xs[i := y])" "a \<noteq> b"
  show "apart (xs[i := y] ! a) (xs[i := y] ! b)"
  proof (cases "a = i")
    case True
    with ab assms(3) [of b] show ?thesis by (simp add: apart_sym [of y])
  next
    case False
    show ?thesis
    proof (cases "b = i")
      case True
      with ab False assms(3) [of a] show ?thesis by simp
    next
      case bi: False
      with False ab assms(1) show ?thesis by (simp add: pairwise_apart_def)
    qed
  qed
qed

lemma pairwise_apart_holes:
  "pairwise_apart xs \<Longrightarrow> pairwise_apart (xs @ replicate n Hole)"
proof (induction n)
  case 0
  then show ?case by simp
next
  case (Suc n)
  then have "pairwise_apart ((xs @ replicate n Hole) @ [Hole])"
    by (intro pairwise_apart_snoc) simp_all
  then show ?case by (simp add: replicate_append_same)
qed

lemma pairwise_apart_array_set:
  assumes "pairwise_apart xs"
    and "\<And>j. j < length xs \<Longrightarrow> j \<noteq> i \<Longrightarrow> apart (xs ! j) (Elem v)"
  shows "pairwise_apart (array_set xs i v)"
proof (cases "i < length xs")
  case True
  with assms show ?thesis by (simp add: array_set_def pairwise_apart_update)
next
  case False
  have "pairwise_apart ((xs @ replicate (i - length xs) Hole) @ [Elem v])"
  proof (rule pairwise_apart_snoc)
    show "pairwise_apart (xs @ replicate (i - length xs) Hole)"
      using assms(1) by (rule pairwise_apart_holes)
  next
    fix j assume "j < length (xs @ replicate (i - length xs) Hole)"
    then show "apart ((xs @ replicate (i - length xs) Hole) ! j) (Elem v)"
      using assms(2) [of j] False by (cases "j < length xs") (simp_all add: nth_append)
  qed
  with False show ?thesis by (simp add: array_set_def)
qed

lemma pairwise_apart_sorted_wrt: "pairwise_apart xs = sorted_wrt apart xs"
proof
  assume "pairwise_apart xs"
  then show "sorted_wrt apart xs"
    by (simp add: pairwise_apart_def sorted_wrt_iff_nth_less)
next
  assume s: "sorted_wrt apart xs"
  show "pairwise_apart xs"
    unfolding pairwise_apart_def
  proof (intro allI impI)
    fix i j assume "i < length xs" "j < length xs" "i \<noteq> j"
    then show "apart (xs ! i) (xs ! j)"
      using s sorted_wrt_nth_less [of apart xs i j] sorted_wrt_nth_less [of apart xs j i]
      by (cases "i < j") (auto simp: apart_sym [of "xs ! i"])
  qed
qed

lemma set_array_filter: "set (array_filter f k xs) \<subseteq> set xs"
  by (induction f k xs rule: array_filter.induct) auto

lemma sorted_wrt_array_filter: "sorted_wrt P xs \<Longrightarrow> sorted_wrt P (array_filter f k xs)"
proof (induction f k xs rule: array_filter.induct)
  case (3 f i v xs)
  then show ?case using set_array_filter [of f "Suc i" xs] by auto
qed simp_all

lemma store_inv_delete: "store_inv st \<Longrightarrow> store_inv (snd (handleDeleteCaption i st))"
  using set_array_filter [of "\<lambda>_ idx. idx \<noteq> i" 0 "captions st"]
  by (auto simp: store_inv_def handleDeleteCaption_def pairwise_apart_sorted_wrt
      sorted_wrt_array_filter list_all_iff)

lemma stored_ok_array_set:
  "list_all stored_ok xs \<Longrightarrow> stored_ok (Elem v) \<Longrightarrow> list_all stored_ok (array_set xs i v)"
  by (auto simp: array_set_def list_all_iff stored_ok_def dest: set_update_subset_insert [THEN subsetD])

lemma commit_apart:
  assumes ok: "list_all stored_ok xs"
    and cur: "\<not> js_ge (parseFloat (caption_start cur)) (parseFloat (caption_end cur))"
    and chk: "array_some (isOverlapping ed (parseFloat (caption_start cur))
                (parseFloat (caption_end cur))) 0 xs = Inr False"
    and j: "j < length xs" "Some j \<noteq> ed"
  shows "apart (spread xs ! j) (Elem (Some cur))"
proof (cases "xs ! j")
  case Hole
  with j show ?thesis by (simp add: spread_def)
next
  case (Elem v)
  from array_some_False_nth [OF chk j(1) Elem]
  have f: "isOverlapping ed (parseFloat (caption_start cur)) (parseFloat (caption_end cur)) v j
    = Inr False" by simp
  show ?thesis
  proof (cases v)
    case None
    with Elem j show ?thesis by (simp add: spread_def)
  next
    case (Some c)
    from ok j(1) Elem Some have "stored_ok (Elem (Some c))"
      by (metis list_all_length)
    then have c: "\<not> js_ge (parseFloat (caption_start c)) (parseFloat (caption_end c))"
      by (simp add: stored_ok_def)
    from f Some j(2) have "\<not> containment_test (parseFloat (caption_start cur))
      (parseFloat (caption_end cur)) (parseFloat (caption_start c)) (parseFloat (caption_end c))"
      by (simp add: isOverlapping_Some)
    from no_containment_no_overlap [OF cur c this] Elem Some j(1) show ?thesis
      by (simp add: spread_def apart_def intervals_overlap_sym)
  qed
qed

lemma store_inv_addOrUpdate: "store_inv st \<Longrightarrow> store_inv (snd (addOrUpdateCaption st))"
proof -
  assume inv: "store_inv st"
  show ?thesis
  proof (cases "\<exists>m. fst (addOrUpdateCaption st) = ToastSuccess m")
    case False
    then have "snd (addOrUpdateCaption st) = st"
      by (auto simp: addOrUpdateCaption_def Let_def
          split: option.splits sum.splits bool.splits if_splits)
    with inv show ?thesis by simp
  next
    case True
    then obtain cur where cur: "currentCaption st = Some cur"
      and filled: "\<not> falsy (caption_text cur)" "\<not> falsy (caption_start cur)"
        "\<not> falsy (caption_end cur)"
      and range: "\<not> js_ge (parseFloat (caption_start cur)) (parseFloat (caption_end cur))"
      and chk: "array_some (isOverlapping (editingIndex st) (parseFloat (caption_start cur))
                (parseFloat (caption_end cur))) 0 (captions st) = Inr False"
      by (auto simp: addOrUpdateCaption_def Let_def
          split: option.splits sum.splits bool.splits if_splits)
    from inv have ok: "list_all stored_ok (captions st)" and pw: "pairwise_apart (captions st)"
      by (simp_all add: store_inv_def)
    have new_ok: "stored_ok (Elem (Some cur))"
      using filled range by (simp add: stored_ok_def)
    show ?thesis
    proof (cases "editingIndex st")
      case None
      have "pairwise_apart (spread (captions st) @ [Elem (Some cur)])"
      proof (rule pairwise_apart_snoc)
        show "pairwise_apart (spread (captions st))" using pw by (simp add: pairwise_apart_spread)
      next
        fix j assume "j < length (spread (captions st))"
        then show "apart (spread (captions st) ! j) (Elem (Some cur))"
          using commit_apart [OF ok range chk, of j] None by simp
      qed
      with None cur filled range chk ok new_ok show ?thesis
        by (simp add: addOrUpdateCaption_def store_inv_def stored_ok_spread)
    next
      case (Some i)
      have "pairwise_apart (array_set (spread (captions st)) i (Some cur))"
      proof (rule pairwise_apart_array_set)
        show "pairwise_apart (spread (captions st))" using pw by (simp add: pairwise_apart_spread)
      next
        fix j assume "j < length (spread (captions st))" "j \<noteq> i"
        then show "apart (spread (captions st) ! j) (Elem (Some cur))"
          using commit_apart [OF ok range chk, of j] Some by simp
      qed
      with Some cur filled range chk ok new_ok show ?thesis
        by (simp add: addOrUpdateCaption_def store_inv_def stored_ok_spread stored_ok_array_set)
    qed
  qed
qed

lemma store_inv_step: "store_inv st \<Longrightarrow> store_inv (step st a)"
proof (cases a)
  case AddOrUpdate
  assume "store_inv st"
  with AddOrUpdate show ?thesis by (simp add: store_inv_addOrUpdate)
next
  case (DeleteCaption i)
  assume "store_inv st"
  with DeleteCaption show ?thesis by (simp add: store_inv_delete)
qed (simp_all add: store_inv_def handleCaptionChange_def handleEditCaption_def setVideoURL_def
    videoURL_effect_def handleVideoError_def pairwise_apart_def Let_def)

lemma store_inv_run: "store_inv (run acts)"
proof (induction acts rule: rev_induct)
  case Nil
  show ?case by (simp add: run_def initial_def store_inv_def pairwise_apart_def)
next
  case (snoc a acts)
  then show ?case by (simp add: run_def store_inv_step)
qed

section \<open>Whole numbers pass through the rounding unchanged\<close>









section \<open>The form, the array and the digits\<close>

lemma digit_not_special:
  "isDigitOf 10 c \<Longrightarrow> \<not> isWhiteSpace c \<and> c \<noteq> CHR ''-'' \<and> c \<noteq> CHR ''+'' \<and> c \<noteq> CHR ''.'' \<and>
     c \<noteq> CHR ''I''"
  by (auto simp: isDigitOf_def digitVal_def isWhiteSpace_def Let_def split: if_splits)

lemma not_white [simp]: "\<not> isWhiteSpace CHR ''-''" "\<not> isWhiteSpace CHR ''.''"
  by (simp_all add: isWhiteSpace_def)

lemma double_of_rat_not_NaN: "double_of_rat x \<noteq> NaN"
  by (simp add: double_of_rat_def)

lemma unsigned_head:
  assumes "if dropWhile (isDigitOf 10) r0 \<noteq> [] \<and> hd (dropWhile (isDigitOf 10) r0) = CHR ''.''
           then takeWhile (isDigitOf 10) (tl (dropWhile (isDigitOf 10) r0)) \<noteq> []
           else takeWhile (isDigitOf 10) r0 \<noteq> []"
  shows "r0 \<noteq> [] \<and> (isDigitOf 10 (hd r0) \<or> hd r0 = CHR ''.'')"
  using assms by (cases r0) (auto split: if_splits)

lemma scanDecimal_unsigned:
  assumes sign: "scanSign s = (neg, r0)"
    and body: "if dropWhile (isDigitOf 10) r0 \<noteq> [] \<and> hd (dropWhile (isDigitOf 10) r0) = CHR ''.''
           then takeWhile (isDigitOf 10) (tl (dropWhile (isDigitOf 10) r0)) \<noteq> []
           else takeWhile (isDigitOf 10) r0 \<noteq> []"
  shows "\<exists>x r3. scanDecimal s = Some (double_of_rat x, r3)"
proof -
  from unsigned_head [OF body] have hd: "r0 \<noteq> []" "isDigitOf 10 (hd r0) \<or> hd r0 = CHR ''.''"
    by simp_all
  have inf: "take 8 r0 \<noteq> ''Infinity''"
  proof
    assume "take 8 r0 = ''Infinity''"
    with hd(1) have "hd r0 = CHR ''I''" by (cases r0) simp_all
    with hd(2) digit_not_special [of "hd r0"] show False by auto
  qed
  from body have ne: "\<not> (takeWhile (isDigitOf 10) r0 = [] \<and>
      (if dropWhile (isDigitOf 10) r0 \<noteq> [] \<and> hd (dropWhile (isDigitOf 10) r0) = CHR ''.''
       then takeWhile (isDigitOf 10) (tl (dropWhile (isDigitOf 10) r0)) else []) = [])"
    by (auto split: if_splits)
  show ?thesis
    unfolding scanDecimal_def sign prod.case Let_def
    using inf ne by (simp only: if_False split: prod.splits) blast
qed

lemma valid_parses:
  assumes "validFloatingPointNumber s"
  shows "parseFloatString s \<noteq> NaN"
proof -
  define r0 where "r0 = (if s \<noteq> [] \<and> hd s = CHR ''-'' then tl s else s)"
  from assms have body:
    "if dropWhile (isDigitOf 10) r0 \<noteq> [] \<and> hd (dropWhile (isDigitOf 10) r0) = CHR ''.''
     then takeWhile (isDigitOf 10) (tl (dropWhile (isDigitOf 10) r0)) \<noteq> []
     else takeWhile (isDigitOf 10) r0 \<noteq> []"
    unfolding validFloatingPointNumber_def Let_def r0_def by (auto split: if_splits)
  from unsigned_head [OF body] have hd0: "r0 \<noteq> []" "isDigitOf 10 (hd r0) \<or> hd r0 = CHR ''.''"
    by simp_all
  have "s \<noteq> []" using hd0(1) by (auto simp: r0_def split: if_splits)
  then obtain c r where s: "s = c # r" by (cases s) auto
  have sign: "\<exists>neg. scanSign s = (neg, r0)" and white: "\<not> isWhiteSpace c"
  proof -
    show "\<exists>neg. scanSign s = (neg, r0)"
      using hd0 digit_not_special [of c] by (auto simp: scanSign_def r0_def s)
    show "\<not> isWhiteSpace c"
      using hd0 digit_not_special [of c] by (auto simp: r0_def s split: if_splits)
  qed
  from white have "trimStart s = s" by (simp add: trimStart_def s)
  moreover from sign obtain neg where "scanSign s = (neg, r0)" ..
  from scanDecimal_unsigned [OF this body]
  obtain x r3 where "scanDecimal s = Some (double_of_rat x, r3)" by blast
  ultimately show ?thesis by (simp add: parseFloatString_def double_of_rat_not_NaN)
qed

lemma empty_not_valid [simp]: "\<not> validFloatingPointNumber []"
  by (simp add: validFloatingPointNumber_def)

lemma parseFloatString_empty [simp]: "parseFloatString [] = NaN"
  by (simp add: parseFloatString_def trimStart_def scanDecimal_def scanSign_def)

lemma numberInputValue_NaN:
  "parseFloat (Str (numberInputValue s)) = NaN \<longleftrightarrow> \<not> validFloatingPointNumber s"
  using valid_parses [of s] by (simp add: numberInputValue_def parseFloat_def)

lemma numberInputValue_empty:
  "numberInputValue s = [] \<longleftrightarrow> \<not> validFloatingPointNumber s"
  by (auto simp: numberInputValue_def)


subsection \<open>Sessions whose time fields come from the number inputs\<close>

lemma times_ok_empty [simp]: "times_ok (Some emptyCaption)" "times_ok None"
  by (simp_all add: times_ok_def field_ok_def emptyCaption_def)

lemma slot_times_ok_simps [simp]:
  "slot_times_ok Hole" "slot_times_ok (Elem c) = times_ok c"
  by (simp_all add: slot_times_ok_def)

lemma times_ok_spread: "list_all slot_times_ok (spread xs) = list_all slot_times_ok xs"
  by (induction xs) (auto simp: spread_def split: slot.splits)

lemma times_ok_array_set:
  "list_all slot_times_ok xs \<Longrightarrow> times_ok v \<Longrightarrow> list_all slot_times_ok (array_set xs i v)"
  by (auto simp: array_set_def list_all_iff dest: set_update_subset_insert [THEN subsetD])

lemma times_ok_array_get: "list_all slot_times_ok xs \<Longrightarrow> times_ok (array_get xs i)"
  by (auto simp: array_get_def list_all_length split: slot.splits)

lemma form_inv_change:
  assumes "form_inv st" and "deliverable (CaptionChange name v)"
  shows "form_inv (handleCaptionChange name v st)"
proof -
  from assms(2) have v: "name = ''start'' \<or> name = ''end'' \<Longrightarrow> field_ok (Str v)"
    by (simp add: deliverable_def field_ok_def)
  from assms(1) have caps: "list_all slot_times_ok (captions st)"
    and cur: "times_ok (currentCaption st)"
    by (simp_all add: form_inv_def)
  show ?thesis
  proof (cases "currentCaption st")
    case None
    with caps v show ?thesis
      by (auto simp: form_inv_def handleCaptionChange_def times_ok_def field_ok_def Let_def)
  next
    case (Some c)
    with cur have "field_ok (caption_start c)" "field_ok (caption_end c)"
      by (simp_all add: times_ok_def)
    with Some caps v show ?thesis
      by (auto simp: form_inv_def handleCaptionChange_def times_ok_def Let_def)
  qed
qed

lemma form_inv_addOrUpdate: "form_inv st \<Longrightarrow> form_inv (snd (addOrUpdateCaption st))"
  by (auto simp: form_inv_def addOrUpdateCaption_def Let_def times_ok_spread
      times_ok_array_set split: option.splits sum.splits bool.splits)

lemma form_inv_delete: "form_inv st \<Longrightarrow> form_inv (snd (handleDeleteCaption i st))"
  using set_array_filter [of "\<lambda>_ idx. idx \<noteq> i" 0 "captions st"]
  by (auto simp: form_inv_def handleDeleteCaption_def list_all_iff)

lemma form_inv_step: "form_inv st \<Longrightarrow> deliverable a \<Longrightarrow> form_inv (step st a)"
proof (cases a)
  case (CaptionChange name v)
  assume "form_inv st" "deliverable a"
  with CaptionChange show ?thesis by (simp add: form_inv_change)
next
  case AddOrUpdate
  assume "form_inv st"
  with AddOrUpdate show ?thesis by (simp add: form_inv_addOrUpdate)
next
  case (DeleteCaption i)
  assume "form_inv st"
  with DeleteCaption show ?thesis by (simp add: form_inv_delete)
next
  case (EditCaption i)
  assume "form_inv st"
  with EditCaption show ?thesis
    by (simp add: form_inv_def handleEditCaption_def times_ok_array_get)
qed (simp_all add: form_inv_def setVideoURL_def videoURL_effect_def handleVideoError_def)

lemma form_inv_run: "list_all deliverable acts \<Longrightarrow> form_inv (run acts)"
proof (induction acts rule: rev_induct)
  case Nil
  show ?case by (simp add: run_def initial_def form_inv_def)
next
  case (snoc a acts)
  then show ?case by (simp add: run_def form_inv_step)
qed

lemma filled_time_parses:
  assumes "field_ok v" and "\<not> falsy v"
  shows "parseFloat v \<noteq> NaN"
  using assms valid_parses
  by (cases v) (auto simp: field_ok_def falsy_def parseFloat_def)

subsection \<open>Deleting from the array\<close>

lemma array_filter_enumerate:
  "array_filter (\<lambda>_ idx. idx \<noteq> index) k xs =
     map snd (filter (\<lambda>(i, x). i \<noteq> index \<and> x \<noteq> Hole) (enumerate k xs))"
proof (induction xs arbitrary: k)
  case Nil
  show ?case by simp
next
  case (Cons x xs)
  then show ?case by (cases x) simp_all
qed

lemma array_filter_before:
  "Hole \<notin> set xs \<Longrightarrow> j < k \<Longrightarrow> array_filter (\<lambda>_ idx. idx \<noteq> j) k xs = xs"
proof (induction xs arbitrary: k)
  case Nil
  show ?case by simp
next
  case (Cons x xs)
  then show ?case by (cases x) simp_all
qed

lemma array_filter_dense:
  "Hole \<notin> set xs \<Longrightarrow>
   array_filter (\<lambda>_ idx. idx \<noteq> k + i) k xs = take i xs @ drop (Suc i) xs"
proof (induction xs arbitrary: k i)
  case Nil
  show ?case by simp
next
  case (Cons x xs)
  from Cons.prems obtain v where x: "x = Elem v" by (cases x) auto
  show ?case
  proof (cases i)
    case 0
    with Cons.prems x show ?thesis by (simp add: array_filter_before)
  next
    case (Suc i')
    with Cons.prems x Cons.IH [of "Suc k" i'] show ?thesis by simp
  qed
qed

subsection \<open>Decimal digits\<close>

lemma digit_char:
  "d < 10 \<Longrightarrow> digitVal (''0123456789'' ! d) = Some (int d)"
proof -
  assume "d < 10"
  then consider "d = 0" | "d = 1" | "d = 2" | "d = 3" | "d = 4" | "d = 5" | "d = 6" | "d = 7"
    | "d = 8" | "d = 9" by atomize_elim arith
  then show ?thesis by cases (simp_all add: digitVal_def)
qed

lemma digitsVal_snoc:
  "digitsVal r (ds @ [c]) = digitsVal r ds * r + (case digitVal c of None \<Rightarrow> 0 | Some d \<Rightarrow> d)"
  by (simp add: digitsVal_def)

lemma stringOfNat_small: "n < 10 \<Longrightarrow> stringOfNat n = [''0123456789'' ! n]"
  by (subst stringOfNat.simps) simp

lemma stringOfNat_large:
  "\<not> n < 10 \<Longrightarrow> stringOfNat n = stringOfNat (n div 10) @ [''0123456789'' ! (n mod 10)]"
  by (subst stringOfNat.simps) simp

lemma stringOfNat_reads_back:
  "digitsVal 10 (stringOfNat n) = int n \<and> list_all (isDigitOf 10) (stringOfNat n) \<and>
   stringOfNat n \<noteq> [] \<and> (0 < n \<longrightarrow> hd (stringOfNat n) \<noteq> CHR ''0'')"
proof (induction n rule: stringOfNat.induct)
  case (1 n)
  show ?case
  proof (cases "n < 10")
    case True
    then consider "n = 0" | "n = 1" | "n = 2" | "n = 3" | "n = 4" | "n = 5" | "n = 6" | "n = 7"
      | "n = 8" | "n = 9" by atomize_elim arith
    then show ?thesis
      by cases (simp_all add: stringOfNat_small digitsVal_def digitVal_def isDigitOf_def)
  next
    case False
    from False have d: "n mod 10 < 10" "0 < n div 10" by simp_all
    from "1.IH" [OF False] d(2)
    have ih: "digitsVal 10 (stringOfNat (n div 10)) = int (n div 10)"
      "list_all (isDigitOf 10) (stringOfNat (n div 10))" "stringOfNat (n div 10) \<noteq> []"
      "hd (stringOfNat (n div 10)) \<noteq> CHR ''0''"
      by simp_all
    have "int (n div 10) * 10 + int (n mod 10) = int n"
      by (simp add: zdiv_int zmod_int)
    moreover from digit_char [OF d(1)] have "isDigitOf 10 (''0123456789'' ! (n mod 10))"
      by (simp add: isDigitOf_def)
    ultimately show ?thesis
      using ih digit_char [OF d(1)]
      by (simp add: stringOfNat_large [OF False] digitsVal_snoc)
  qed
qed




subsection \<open>The loop of the encoder\<close>

lemma vttCues_general:
  "Elem None \<notin> set xs \<Longrightarrow>
   vttCues i xs vtt =
     Inr (vtt @ concat (map (\<lambda>(k, x).
       case x of
         Elem (Some c) \<Rightarrow>
           stringOfNat (k + 1) @ [CHR 0x0A] @
           formatTime (toNumber (caption_start c)) @ '' --> '' @
           formatTime (toNumber (caption_end c)) @ [CHR 0x0A] @
           (case caption_text c of Undefined \<Rightarrow> ''undefined'' | Str t \<Rightarrow> t) @
           [CHR 0x0A, CHR 0x0A]
       | _ \<Rightarrow> []) (enumerate i xs)))"
proof (induction xs arbitrary: i vtt)
  case Nil
  show ?case by simp
next
  case (Cons x xs)
  from Cons.prems have rest: "Elem None \<notin> set xs" and x: "x \<noteq> Elem None" by auto
  show ?case
  proof (cases x)
    case Hole
    with Cons.IH [OF rest] show ?thesis by (simp add: case_prod_beta)
  next
    case (Elem v)
    with x obtain c where c: "v = Some c" by (cases v) auto
    show ?thesis
      by (simp add: Elem c Cons.IH [OF rest] Let_def newline_def toString_def case_prod_beta)
  qed
qed

section \<open>The example sessions, evaluated\<close>

lemma run_snoc: "run (acts @ [a]) = step (run acts) a"
  by (simp add: run_def)

lemma run_hi: "run hi_session = opened\<lparr>captions := [Elem (Some hi)]\<rparr>"
  by code_simp

lemma run_hi_bye_2_4:
  "run (hi_session @ bye_draft ''2'' ''4'') =
     opened\<lparr>captions := [Elem (Some hi)], currentCaption := Some (bye ''2'' ''4'')\<rparr>"
  by code_simp

lemma run_hi_bye_3_4:
  "run (hi_session @ bye_draft ''3'' ''4'') =
     opened\<lparr>captions := [Elem (Some hi)], currentCaption := Some (bye ''3'' ''4'')\<rparr>"
  by code_simp

lemma run_stale_cursor:
  "run stale_cursor_session =
     opened\<lparr>captions := [Elem (Some (bye ''3'' ''4'')), Elem (Some (bye ''5'' ''7''))]\<rparr>"
  by code_simp

lemma parseFloat_values:
  "parseFloat (Str ''1'') = Fin 1" "parseFloat (Str ''2'') = Fin 2"
  "parseFloat (Str ''3'') = Fin 3" "parseFloat (Str ''4'') = Fin 4"
  "parseFloat (Str ''5'') = Fin 5" "parseFloat (Str ''7'') = Fin 7"
  "parseFloat (Str ''-5'') = Fin (- 5)"
  "parseFloat (Str ''-1'') = Fin (- 1)" "parseFloat (Str ''abc'') = NaN"
  by code_simp+

lemma example_fields [simp]:
  "caption_text hi = Str ''Hi''" "caption_start hi = Str ''1''" "caption_end hi = Str ''3''"
  "caption_text (bye s e) = Str ''Bye''" "caption_start (bye s e) = Str s"
  "caption_end (bye s e) = Str e"
  by (simp_all add: hi_def bye_def)


lemma run_negative:
  "run (VideoURL ''a.mp4'' # type_draft ''x'' ''-5'' ''-1'' @ [AddOrUpdate]) =
     opened\<lparr>captions := [Elem (Some \<lparr>caption_text = Str ''x'', caption_start = Str ''-5'',
       caption_end = Str ''-1''\<rparr>)]\<rparr>"
  by code_simp


lemma run_two:
  "run (hi_session @ bye_draft ''3'' ''4'' @ [AddOrUpdate]) =
     opened\<lparr>captions := [Elem (Some hi), Elem (Some (bye ''3'' ''4''))]\<rparr>"
  by code_simp

lemma run_two_editing:
  "run (hi_session @ bye_draft ''3'' ''4'' @ [AddOrUpdate, EditCaption 1]) =
     opened\<lparr>captions := [Elem (Some hi), Elem (Some (bye ''3'' ''4''))],
       currentCaption := Some (bye ''3'' ''4''), editingIndex := Some 1\<rparr>"
  by code_simp

lemma run_sparse:
  "run sparse_session = opened\<lparr>captions := [Hole, Elem (Some (bye ''3'' ''4''))]\<rparr>"
  by code_simp

lemma run_typed_abc:
  "run (VideoURL ''a.mp4'' #
      type_draft ''x'' (numberInputValue ''abc'') (numberInputValue ''5'')) =
     opened\<lparr>currentCaption := Some \<lparr>caption_text = Str ''x'',
       caption_start = Str (numberInputValue ''abc''),
       caption_end = Str (numberInputValue ''5'')\<rparr>\<rparr>"
  by code_simp

lemma typed_values:
  "\<not> validFloatingPointNumber ''abc''" "validFloatingPointNumber ''5''"
  "numberInputValue ''abc'' = []" "numberInputValue ''5'' = ''5''"
  by code_simp+

lemma deliverable_sessions:
  "list_all deliverable hi_session"
  "list_all deliverable (VideoURL ''a.mp4'' # type_draft ''x'' ''-5'' ''-1'' @ [AddOrUpdate])"
  by code_simp+

lemma formatTime_stored_values:
  "formatTime (toNumber (Str ''1'')) = ''00:00:01.000''"
  "formatTime (toNumber (Str ''3'')) = ''00:00:03.000''"
  "formatTime (toNumber (Str ''4'')) = ''00:00:04.000''"
  by code_simp+

lemma stringOfNat_values:
  "stringOfNat 1 = ''1''" "stringOfNat 2 = ''2''" "stringOfNat (Suc 0) = ''1''"
  "stringOfNat (Suc (Suc 0)) = ''2''"
  by code_simp+

lemma fill_all_fields_iff:
  assumes "currentCaption st = Some cur"
  shows "fst (addOrUpdateCaption st) = ToastError ''Please fill all fields.'' \<longleftrightarrow>
         falsy (caption_text cur) \<or> falsy (caption_start cur) \<or> falsy (caption_end cur)"
  using assms
  by (auto simp: addOrUpdateCaption_def Let_def split: option.splits sum.splits bool.splits)

lemma fill_all_fields_state:
  assumes "currentCaption st = Some cur"
    and "falsy (caption_text cur) \<or> falsy (caption_start cur) \<or> falsy (caption_end cur)"
  shows "addOrUpdateCaption st = (ToastError ''Please fill all fields.'', st)"
  using assms by (auto simp: addOrUpdateCaption_def)

lemma stored_caption_passed_checks:
  assumes "Elem (Some c) \<in> set (captions (run acts))"
  shows "\<not> falsy (caption_text c) \<and> \<not> falsy (caption_start c) \<and> \<not> falsy (caption_end c) \<and>
         \<not> js_ge (parseFloat (caption_start c)) (parseFloat (caption_end c))"
proof -
  have "list_all stored_ok (captions (run acts))"
    using store_inv_run [of acts] by (simp add: store_inv_def)
  with assms have "stored_ok (Elem (Some c))" by (simp add: list_all_iff)
  then show ?thesis by (simp add: stored_ok_def)
qed

lemma vttCues_dense:
  "vttCues i (map (\<lambda>c. Elem (Some c)) cs) vtt =
     Inr (vtt @ concat (map (\<lambda>(k, c).
       stringOfNat (k + 1) @ [CHR 0x0A] @
       formatTime (toNumber (caption_start c)) @ '' --> '' @
       formatTime (toNumber (caption_end c)) @ [CHR 0x0A] @
       (case caption_text c of Undefined \<Rightarrow> ''undefined'' | Str t \<Rightarrow> t) @
       [CHR 0x0A, CHR 0x0A]) (enumerate i cs)))"
  by (induction cs arbitrary: i vtt)
    (simp_all add: Let_def newline_def toString_def case_prod_beta)

section \<open>The overlap check\<close>

text \<open>
  Claim C1. For a draft whose three fields are filled in and whose parsed start is below its
  parsed end, over a store whose captions each passed the range check (holes allowed),
  \<^verbatim>\<open>addOrUpdateCaption\<close> reports the overlap error exactly when the draft's interval
  intersects, in the sense \<^verbatim>\<open>s1 < e2 && s2 < e1\<close>, the interval of a stored caption at an
  index other than \<^verbatim>\<open>editingIndex\<close>: the three-part containment test of the code and the
  half-open intersection test agree.
\<close>

theorem overlap_rejected_iff_intersects:
  assumes cur: "currentCaption st = Some cur"
    and filled: "\<not> falsy (caption_text cur)" "\<not> falsy (caption_start cur)"
      "\<not> falsy (caption_end cur)"
    and range: "js_lt (parseFloat (caption_start cur)) (parseFloat (caption_end cur))"
    and store: "\<forall>x\<in>set (captions st). x = Hole \<or>
      (\<exists>c. x = Elem (Some c) \<and>
           \<not> js_ge (parseFloat (caption_start c)) (parseFloat (caption_end c)))"
  shows "fst (addOrUpdateCaption st) =
           ToastError ''The specified time range overlaps with an existing caption.'' \<longleftrightarrow>
         (\<exists>i<length (captions st). Some i \<noteq> editingIndex st \<and>
            (\<exists>c. captions st ! i = Elem (Some c) \<and>
              intervals_overlap (parseFloat (caption_start cur)) (parseFloat (caption_end cur))
                (parseFloat (caption_start c)) (parseFloat (caption_end c))))"
proof -
  let ?s = "parseFloat (caption_start cur)" and ?e = "parseFloat (caption_end cur)"
  let ?g = "\<lambda>v i. Some i \<noteq> editingIndex st \<and>
      (\<exists>c. v = Some c \<and> intervals_overlap ?s ?e (parseFloat (caption_start c))
         (parseFloat (caption_end c)))"
  have some: "array_some (isOverlapping (editingIndex st) ?s ?e) 0 (captions st) =
      Inr (\<exists>j<length (captions st). \<exists>v. captions st ! j = Elem v \<and> ?g v (0 + j))"
  proof (rule array_some_total)
    fix j v assume j: "j < length (captions st)" and v: "captions st ! j = Elem v"
    from j have "captions st ! j \<in> set (captions st)" by simp
    with store v obtain c where c: "v = Some c"
      and ok: "\<not> js_ge (parseFloat (caption_start c)) (parseFloat (caption_end c))"
      by auto
    show "isOverlapping (editingIndex st) ?s ?e v (0 + j) = Inr (?g v (0 + j))"
      using containment_iff_overlap [OF range ok] c by (simp add: isOverlapping_Some)
  qed
  from range have "\<not> js_ge ?s ?e"
    by (cases ?s; cases ?e) (auto simp: js_ge_def js_le_def)
  with cur filled some show ?thesis
    by (auto simp: addOrUpdateCaption_def Let_def split: option.splits bool.splits)
qed

text \<open>
  The scenario of the specification: over the store holding \<open>hi\<close>, the draft from 2 to 4 is
  rejected and the draft from 3 to 4, which only touches, is not.
\<close>

theorem overlap_rejected_iff_intersects_witness:
  "fst (addOrUpdateCaption (run (hi_session @ bye_draft ''2'' ''4''))) =
     ToastError ''The specified time range overlaps with an existing caption.'' \<and>
   fst (addOrUpdateCaption (run (hi_session @ bye_draft ''3'' ''4''))) \<noteq>
     ToastError ''The specified time range overlaps with an existing caption.''"
proof
  let ?st = "run (hi_session @ bye_draft ''2'' ''4'')"
  have cur: "currentCaption ?st = Some (bye ''2'' ''4'')"
    by (simp add: run_hi_bye_2_4)
  have filled: "\<not> falsy (caption_text (bye ''2'' ''4''))"
    "\<not> falsy (caption_start (bye ''2'' ''4''))" "\<not> falsy (caption_end (bye ''2'' ''4''))"
    by (simp_all add: falsy_def)
  have range: "js_lt (parseFloat (caption_start (bye ''2'' ''4'')))
      (parseFloat (caption_end (bye ''2'' ''4'')))"
    by (simp add: parseFloat_values)
  have store: "\<forall>x\<in>set (captions ?st). x = Hole \<or>
      (\<exists>c. x = Elem (Some c) \<and>
           \<not> js_ge (parseFloat (caption_start c)) (parseFloat (caption_end c)))"
    by (simp add: run_hi_bye_2_4 parseFloat_values js_ge_def js_le_def)
  have hit: "\<exists>i<length (captions ?st). Some i \<noteq> editingIndex ?st \<and>
      (\<exists>c. captions ?st ! i = Elem (Some c) \<and>
        intervals_overlap (parseFloat (caption_start (bye ''2'' ''4'')))
          (parseFloat (caption_end (bye ''2'' ''4'')))
          (parseFloat (caption_start c)) (parseFloat (caption_end c)))"
    by (simp add: run_hi_bye_2_4 opened_def initial_def parseFloat_values intervals_overlap_def)
  show "fst (addOrUpdateCaption ?st) =
     ToastError ''The specified time range overlaps with an existing caption.''"
    using overlap_rejected_iff_intersects [OF cur filled range store] hit by blast
next
  let ?st = "run (hi_session @ bye_draft ''3'' ''4'')"
  have cur: "currentCaption ?st = Some (bye ''3'' ''4'')"
    by (simp add: run_hi_bye_3_4)
  have filled: "\<not> falsy (caption_text (bye ''3'' ''4''))"
    "\<not> falsy (caption_start (bye ''3'' ''4''))" "\<not> falsy (caption_end (bye ''3'' ''4''))"
    by (simp_all add: falsy_def)
  have range: "js_lt (parseFloat (caption_start (bye ''3'' ''4'')))
      (parseFloat (caption_end (bye ''3'' ''4'')))"
    by (simp add: parseFloat_values)
  have store: "\<forall>x\<in>set (captions ?st). x = Hole \<or>
      (\<exists>c. x = Elem (Some c) \<and>
           \<not> js_ge (parseFloat (caption_start c)) (parseFloat (caption_end c)))"
    by (simp add: run_hi_bye_3_4 parseFloat_values js_ge_def js_le_def)
  have miss: "\<not> (\<exists>i<length (captions ?st). Some i \<noteq> editingIndex ?st \<and>
      (\<exists>c. captions ?st ! i = Elem (Some c) \<and>
        intervals_overlap (parseFloat (caption_start (bye ''3'' ''4'')))
          (parseFloat (caption_end (bye ''3'' ''4'')))
          (parseFloat (caption_start c)) (parseFloat (caption_end c))))"
    by (simp add: run_hi_bye_3_4 opened_def initial_def parseFloat_values intervals_overlap_def)
  show "fst (addOrUpdateCaption ?st) \<noteq>
     ToastError ''The specified time range overlaps with an existing caption.''"
    using overlap_rejected_iff_intersects [OF cur filled range store] miss by blast
qed

section \<open>The invariants of the store\<close>

text \<open>
  Claim C2. After any session that starts from the empty store, whatever the actions and
  their order (stale edit cursors and drafts that do not parse included), two captions at
  different positions of \<^verbatim>\<open>captions\<close> never overlap: \<^verbatim>\<open>s1 < e2 && s2 < e1\<close> is false of
  their parsed intervals.
\<close>

theorem captions_pairwise_disjoint:
  assumes "i < length (captions (run acts))" and "j < length (captions (run acts))"
    and "i \<noteq> j"
    and "captions (run acts) ! i = Elem (Some a)" and "captions (run acts) ! j = Elem (Some b)"
  shows "\<not> intervals_overlap (parseFloat (caption_start a)) (parseFloat (caption_end a))
           (parseFloat (caption_start b)) (parseFloat (caption_end b))"
proof -
  have "pairwise_apart (captions (run acts))"
    using store_inv_run [of acts] by (simp add: store_inv_def)
  with assms(1-3) have "apart (captions (run acts) ! i) (captions (run acts) ! j)"
    by (simp add: pairwise_apart_def)
  with assms(4,5) show ?thesis by (simp add: apart_def)
qed

text \<open>
  A session with a stale cursor: the second caption is selected, the first one deleted, and
  the retimed draft is committed at the index the cursor still holds.
\<close>

theorem captions_pairwise_disjoint_witness:
  "captions (run stale_cursor_session) =
     [Elem (Some (bye ''3'' ''4'')), Elem (Some (bye ''5'' ''7''))] \<and>
   \<not> intervals_overlap (Fin 3) (Fin 4) (Fin 5) (Fin 7)"
proof -
  have c: "captions (run stale_cursor_session) =
     [Elem (Some (bye ''3'' ''4'')), Elem (Some (bye ''5'' ''7''))]"
    by (simp add: run_stale_cursor)
  have "\<not> intervals_overlap (parseFloat (caption_start (bye ''3'' ''4'')))
      (parseFloat (caption_end (bye ''3'' ''4''))) (parseFloat (caption_start (bye ''5'' ''7'')))
      (parseFloat (caption_end (bye ''5'' ''7'')))"
    by (rule captions_pairwise_disjoint [of 0 stale_cursor_session 1]) (simp_all add: c)
  with c show ?thesis by (simp add: parseFloat_values)
qed

text \<open>
  Claim C6, as the code has it. In a session whose start and end values come from the
  number inputs, every caption in the store has a non-empty text and a start and an end that
  parse to numbers, with the end above the start. Nothing bounds the start from below.
\<close>

theorem stored_caption_is_timed:
  assumes "list_all deliverable acts" and "Elem (Some c) \<in> set (captions (run acts))"
  shows "\<not> falsy (caption_text c) \<and>
         parseFloat (caption_start c) \<noteq> NaN \<and> parseFloat (caption_end c) \<noteq> NaN \<and>
         js_gt (parseFloat (caption_end c)) (parseFloat (caption_start c))"
proof -
  from stored_caption_passed_checks [OF assms(2)]
  have filled: "\<not> falsy (caption_text c)" "\<not> falsy (caption_start c)" "\<not> falsy (caption_end c)"
    and ge: "\<not> js_ge (parseFloat (caption_start c)) (parseFloat (caption_end c))"
    by simp_all
  from form_inv_run [OF assms(1)] have "list_all slot_times_ok (captions (run acts))"
    by (simp add: form_inv_def)
  with assms(2) have "times_ok (Some c)" by (auto simp: list_all_iff)
  then have "field_ok (caption_start c)" "field_ok (caption_end c)"
    by (simp_all add: times_ok_def)
  with filled have num: "parseFloat (caption_start c) \<noteq> NaN" "parseFloat (caption_end c) \<noteq> NaN"
    by (simp_all add: filled_time_parses)
  with ge have "js_gt (parseFloat (caption_end c)) (parseFloat (caption_start c))"
    by (cases "parseFloat (caption_start c)"; cases "parseFloat (caption_end c)")
      (auto simp: js_ge_def js_le_def js_gt_def)
  with filled num show ?thesis by simp
qed

theorem stored_caption_is_timed_witness:
  "list_all deliverable hi_session \<and> Elem (Some hi) \<in> set (captions (run hi_session)) \<and>
   parseFloat (caption_start hi) = Fin 1 \<and> parseFloat (caption_end hi) = Fin 3 \<and>
   js_gt (parseFloat (caption_end hi)) (parseFloat (caption_start hi))"
proof -
  have d: "list_all deliverable hi_session" by (rule deliverable_sessions)
  have m: "Elem (Some hi) \<in> set (captions (run hi_session))" by (simp add: run_hi)
  from stored_caption_is_timed [OF d m] d m show ?thesis by (simp add: parseFloat_values)
qed

text \<open>A draft from -5 to -1, typed into the number inputs, is stored: its start is below 0.\<close>

theorem negative_start_stored:
  "list_all deliverable (VideoURL ''a.mp4'' # type_draft ''x'' ''-5'' ''-1'' @ [AddOrUpdate]) \<and>
   captions (run (VideoURL ''a.mp4'' # type_draft ''x'' ''-5'' ''-1'' @ [AddOrUpdate])) =
     [Elem (Some \<lparr>caption_text = Str ''x'', caption_start = Str ''-5'',
        caption_end = Str ''-1''\<rparr>)] \<and>
   parseFloat (Str ''-5'') = Fin (- 5) \<and>
   \<not> js_ge (parseFloat (Str ''-5'')) (Fin 0)"
  using deliverable_sessions(2)
  by (simp add: run_negative parseFloat_values js_ge_def js_le_def)

section \<open>The edit cursor\<close>

text \<open>
  Claim C3, as the code has it. \<^verbatim>\<open>handleDeleteCaption\<close> removes the element at the index
  (and the holes of a sparse array): over an array without holes the captions after the
  index move down by one. The edit cursor and the draft are what they were, whichever
  index is deleted: the cursor is neither cleared nor shifted.
\<close>

theorem delete_removes_and_keeps_cursor:
  "captions (snd (handleDeleteCaption index st)) =
     map snd (filter (\<lambda>(i, x). i \<noteq> index \<and> x \<noteq> Hole) (enumerate 0 (captions st))) \<and>
   (Hole \<notin> set (captions st) \<longrightarrow>
      captions (snd (handleDeleteCaption index st)) =
        take index (captions st) @ drop (Suc index) (captions st)) \<and>
   editingIndex (snd (handleDeleteCaption index st)) = editingIndex st \<and>
   currentCaption (snd (handleDeleteCaption index st)) = currentCaption st"
  using array_filter_dense [of "captions st" 0 index]
  by (simp add: handleDeleteCaption_def array_filter_enumerate)

theorem delete_removes_and_keeps_cursor_witness:
  "Hole \<notin> set (captions (run (hi_session @ bye_draft ''3'' ''4'' @
      [AddOrUpdate, EditCaption 1]))) \<and>
   captions (snd (handleDeleteCaption 0 (run (hi_session @ bye_draft ''3'' ''4'' @
      [AddOrUpdate, EditCaption 1])))) = [Elem (Some (bye ''3'' ''4''))] \<and>
   editingIndex (snd (handleDeleteCaption 0 (run (hi_session @ bye_draft ''3'' ''4'' @
      [AddOrUpdate, EditCaption 1])))) = Some 1"
proof -
  let ?st = "run (hi_session @ bye_draft ''3'' ''4'' @ [AddOrUpdate, EditCaption 1])"
  have h: "Hole \<notin> set (captions ?st)" unfolding run_two_editing by simp
  from delete_removes_and_keeps_cursor [of 0 ?st] h show ?thesis
    unfolding run_two_editing by simp
qed

text \<open>
  Deleting the caption that is being edited leaves the cursor on index 0 of an empty
  store; deleting the caption before the one being edited leaves the cursor on index 1.
\<close>

theorem delete_leaves_cursor_dangling:
  "editingIndex (run (hi_session @ [EditCaption 0])) = Some 0 \<and>
   editingIndex (run (hi_session @ [EditCaption 0, DeleteCaption 0])) = Some 0 \<and>
   captions (run (hi_session @ [EditCaption 0, DeleteCaption 0])) = [] \<and>
   editingIndex (run (hi_session @ bye_draft ''3'' ''4'' @ [AddOrUpdate, EditCaption 1])) =
     Some 1 \<and>
   editingIndex (run (hi_session @ bye_draft ''3'' ''4'' @
     [AddOrUpdate, EditCaption 1, DeleteCaption 0])) = Some 1"
  by code_simp

text \<open>
  Claim C4, as the code has it. When \<^verbatim>\<open>videoURL\<close> changes, the effect empties
  \<^verbatim>\<open>captions\<close>, resets the draft to three empty fields and clears \<^verbatim>\<open>videoError\<close>; the edit
  cursor is what it was.
\<close>

theorem videoURL_change_resets:
  assumes "v \<noteq> videoURL st"
  shows "captions (setVideoURL v st) = [] \<and>
         currentCaption (setVideoURL v st) = Some emptyCaption \<and>
         \<not> videoError (setVideoURL v st) \<and>
         editingIndex (setVideoURL v st) = editingIndex st"
  using assms by (simp add: setVideoURL_def videoURL_effect_def)

theorem videoURL_change_resets_witness:
  "''b.mp4'' \<noteq> videoURL (run (hi_session @ [EditCaption 0])) \<and>
   captions (setVideoURL ''b.mp4'' (run (hi_session @ [EditCaption 0]))) = [] \<and>
   editingIndex (setVideoURL ''b.mp4'' (run (hi_session @ [EditCaption 0]))) =
     editingIndex (run (hi_session @ [EditCaption 0]))"
proof -
  have h: "''b.mp4'' \<noteq> videoURL (run (hi_session @ [EditCaption 0]))"
    by (simp add: run_snoc run_hi handleEditCaption_def opened_def initial_def)
  from videoURL_change_resets [OF h] h show ?thesis by simp
qed

theorem videoURL_change_keeps_cursor:
  "captions (run (hi_session @ [EditCaption 0, VideoURL ''b.mp4''])) = [] \<and>
   editingIndex (run (hi_session @ [EditCaption 0, VideoURL ''b.mp4''])) = Some 0"
  by code_simp

section \<open>The checks on the draft\<close>

text \<open>
  Claim C5. For a draft as the form delivers it, the start and the end being what the
  number inputs make of the text typed into them, \<^verbatim>\<open>addOrUpdateCaption\<close> answers
  "Please fill all fields." exactly when the text is empty or the start or the end does
  not parse to a number; and whenever the text is empty or what was typed as start or end
  is not a number (\<^verbatim>\<open>abc\<close>, say), that is the answer and the state is unchanged, so that
  no caption is added.
\<close>

theorem missing_field_on_form_drafts:
  assumes "currentCaption st = Some \<lparr>caption_text = Str t,
      caption_start = Str (numberInputValue s), caption_end = Str (numberInputValue e)\<rparr>"
  shows "(fst (addOrUpdateCaption st) = ToastError ''Please fill all fields.'' \<longleftrightarrow>
            t = [] \<or> parseFloat (Str (numberInputValue s)) = NaN \<or>
            parseFloat (Str (numberInputValue e)) = NaN) \<and>
         (t = [] \<or> \<not> validFloatingPointNumber s \<or> \<not> validFloatingPointNumber e \<longrightarrow>
            addOrUpdateCaption st = (ToastError ''Please fill all fields.'', st))"
proof -
  have f: "falsy (Str t) = (t = [])"
    "falsy (Str (numberInputValue s)) = (\<not> validFloatingPointNumber s)"
    "falsy (Str (numberInputValue e)) = (\<not> validFloatingPointNumber e)"
    by (simp_all add: falsy_def numberInputValue_empty)
  from fill_all_fields_iff [OF assms] f
  have "fst (addOrUpdateCaption st) = ToastError ''Please fill all fields.'' \<longleftrightarrow>
      t = [] \<or> \<not> validFloatingPointNumber s \<or> \<not> validFloatingPointNumber e"
    by simp
  moreover from fill_all_fields_state [OF assms] f
  have "t = [] \<or> \<not> validFloatingPointNumber s \<or> \<not> validFloatingPointNumber e \<longrightarrow>
      addOrUpdateCaption st = (ToastError ''Please fill all fields.'', st)"
    by simp
  ultimately show ?thesis by (simp add: numberInputValue_NaN)
qed

text \<open>The text \<^verbatim>\<open>abc\<close> typed as the start: the draft is rejected and nothing is stored.\<close>

theorem missing_field_on_form_drafts_witness:
  "\<not> validFloatingPointNumber ''abc'' \<and>
   addOrUpdateCaption (run (VideoURL ''a.mp4'' #
      type_draft ''x'' (numberInputValue ''abc'') (numberInputValue ''5''))) =
     (ToastError ''Please fill all fields.'',
      run (VideoURL ''a.mp4'' #
        type_draft ''x'' (numberInputValue ''abc'') (numberInputValue ''5''))) \<and>
   captions (run (VideoURL ''a.mp4'' #
      type_draft ''x'' (numberInputValue ''abc'') (numberInputValue ''5''))) = []"
proof -
  let ?st = "run (VideoURL ''a.mp4'' #
      type_draft ''x'' (numberInputValue ''abc'') (numberInputValue ''5''))"
  have h: "currentCaption ?st = Some \<lparr>caption_text = Str ''x'',
      caption_start = Str (numberInputValue ''abc''),
      caption_end = Str (numberInputValue ''5'')\<rparr>"
    by (simp add: run_typed_abc)
  have c: "captions ?st = []" by (simp add: run_typed_abc opened_def initial_def)
  from missing_field_on_form_drafts [OF h] c show ?thesis by (simp add: typed_values)
qed

text \<open>
  Claim C10. When \<^verbatim>\<open>addOrUpdateCaption\<close> ends in an error toast, whichever of the three,
  the state (captions, edit cursor, draft and the rest) is the state it started from.
\<close>

theorem validation_failure_keeps_state:
  assumes "fst (addOrUpdateCaption st) = ToastError m"
  shows "snd (addOrUpdateCaption st) = st"
  using assms
  by (auto simp: addOrUpdateCaption_def Let_def split: option.splits sum.splits bool.splits
      if_splits)

theorem validation_failure_keeps_state_witness:
  "fst (addOrUpdateCaption (run (hi_session @ bye_draft ''2'' ''4''))) =
     ToastError ''The specified time range overlaps with an existing caption.'' \<and>
   snd (addOrUpdateCaption (run (hi_session @ bye_draft ''2'' ''4''))) =
     run (hi_session @ bye_draft ''2'' ''4'')"
proof -
  have h: "fst (addOrUpdateCaption (run (hi_session @ bye_draft ''2'' ''4''))) =
     ToastError ''The specified time range overlaps with an existing caption.''"
    by code_simp
  from validation_failure_keeps_state [OF h] h show ?thesis by simp
qed

section \<open>The encoder\<close>

text \<open>
  Claim C8. \<^verbatim>\<open>formatTime\<close> maps 0 to \<^verbatim>\<open>00:00:00.000\<close> and 3661.5 to \<^verbatim>\<open>01:01:01.500\<close>,
  given as numbers and given as the strings a caption holds.
\<close>

theorem formatTime_examples:
  "formatTime (Fin 0) = ''00:00:00.000'' \<and>
   formatTime (Fin (7323 / 2)) = ''01:01:01.500'' \<and>
   formatTime (toNumber (Str ''0'')) = ''00:00:00.000'' \<and>
   formatTime (toNumber (Str ''3661.5'')) = ''01:01:01.500''"
  by code_simp




text \<open>
  Claim C9, as the code has it. Over a store without \<^verbatim>\<open>undefined\<close> elements the track is
  the header \<^verbatim>\<open>WEBVTT\<close> and an empty line, then for each caption, in the order of the
  array, a block made of its array index plus one in decimal, the line of its two formatted
  times, its text and an empty line. A hole is skipped and the numbers are not closed up;
  over a store that holds the captions \<open>cs\<close> and no hole the numbers are 1, 2, 3 and so on,
  and over the empty store the track is the header and the empty line alone.
\<close>

theorem generateVTT_cues:
  assumes "Elem None \<notin> set (captions st)"
  shows "generateVTT st =
           Inr (''WEBVTT'' @ [CHR 0x0A, CHR 0x0A] @ concat (map (\<lambda>(k, x).
             case x of
               Elem (Some c) \<Rightarrow>
                 stringOfNat (k + 1) @ [CHR 0x0A] @
                 formatTime (toNumber (caption_start c)) @ '' --> '' @
                 formatTime (toNumber (caption_end c)) @ [CHR 0x0A] @
                 (case caption_text c of Undefined \<Rightarrow> ''undefined'' | Str t \<Rightarrow> t) @
                 [CHR 0x0A, CHR 0x0A]
             | _ \<Rightarrow> []) (enumerate 0 (captions st)))) \<and>
         generateVTT (st\<lparr>captions := map (\<lambda>c. Elem (Some c)) cs\<rparr>) =
           Inr (''WEBVTT'' @ [CHR 0x0A, CHR 0x0A] @ concat (map (\<lambda>(k, c).
             stringOfNat (k + 1) @ [CHR 0x0A] @
             formatTime (toNumber (caption_start c)) @ '' --> '' @
             formatTime (toNumber (caption_end c)) @ [CHR 0x0A] @
             (case caption_text c of Undefined \<Rightarrow> ''undefined'' | Str t \<Rightarrow> t) @
             [CHR 0x0A, CHR 0x0A]) (enumerate 0 cs))) \<and>
         generateVTT (st\<lparr>captions := []\<rparr>) = Inr (''WEBVTT'' @ [CHR 0x0A, CHR 0x0A]) \<and>
         (\<forall>k. digitsVal 10 (stringOfNat (k + 1)) = int k + 1 \<and>
              list_all (isDigitOf 10) (stringOfNat (k + 1)) \<and>
              hd (stringOfNat (k + 1)) \<noteq> CHR ''0'')"
proof (intro conjI allI)
  show "generateVTT st =
           Inr (''WEBVTT'' @ [CHR 0x0A, CHR 0x0A] @ concat (map (\<lambda>(k, x).
             case x of
               Elem (Some c) \<Rightarrow>
                 stringOfNat (k + 1) @ [CHR 0x0A] @
                 formatTime (toNumber (caption_start c)) @ '' --> '' @
                 formatTime (toNumber (caption_end c)) @ [CHR 0x0A] @
                 (case caption_text c of Undefined \<Rightarrow> ''undefined'' | Str t \<Rightarrow> t) @
                 [CHR 0x0A, CHR 0x0A]
             | _ \<Rightarrow> []) (enumerate 0 (captions st))))"
    by (simp add: generateVTT_def vttCues_general [OF assms] newline_def)
next
  show "generateVTT (st\<lparr>captions := map (\<lambda>c. Elem (Some c)) cs\<rparr>) =
           Inr (''WEBVTT'' @ [CHR 0x0A, CHR 0x0A] @ concat (map (\<lambda>(k, c).
             stringOfNat (k + 1) @ [CHR 0x0A] @
             formatTime (toNumber (caption_start c)) @ '' --> '' @
             formatTime (toNumber (caption_end c)) @ [CHR 0x0A] @
             (case caption_text c of Undefined \<Rightarrow> ''undefined'' | Str t \<Rightarrow> t) @
             [CHR 0x0A, CHR 0x0A]) (enumerate 0 cs)))"
    by (simp add: generateVTT_def vttCues_dense newline_def)
next
  show "generateVTT (st\<lparr>captions := []\<rparr>) = Inr (''WEBVTT'' @ [CHR 0x0A, CHR 0x0A])"
    by (simp add: generateVTT_def newline_def)
next
  fix k
  show "digitsVal 10 (stringOfNat (k + 1)) = int k + 1"
    using stringOfNat_reads_back [of "k + 1"] by simp
  show "list_all (isDigitOf 10) (stringOfNat (k + 1))"
    using stringOfNat_reads_back [of "k + 1"] by simp
  show "hd (stringOfNat (k + 1)) \<noteq> CHR ''0''"
    using stringOfNat_reads_back [of "k + 1"] by simp
qed

text \<open>The track of the store that holds \<open>hi\<close> and the caption from 3 to 4.\<close>

theorem generateVTT_cues_witness:
  "Elem None \<notin> set (captions (run (hi_session @ bye_draft ''3'' ''4'' @ [AddOrUpdate]))) \<and>
   generateVTT (run (hi_session @ bye_draft ''3'' ''4'' @ [AddOrUpdate])) =
     Inr (''WEBVTT'' @ [CHR 0x0A, CHR 0x0A] @
          ''1'' @ [CHR 0x0A] @ ''00:00:01.000 --> 00:00:03.000'' @ [CHR 0x0A] @
          ''Hi'' @ [CHR 0x0A, CHR 0x0A] @
          ''2'' @ [CHR 0x0A] @ ''00:00:03.000 --> 00:00:04.000'' @ [CHR 0x0A] @
          ''Bye'' @ [CHR 0x0A, CHR 0x0A])"
proof -
  let ?st = "run (hi_session @ bye_draft ''3'' ''4'' @ [AddOrUpdate])"
  have h: "Elem None \<notin> set (captions ?st)" by (simp add: run_two)
  from generateVTT_cues [OF h] h show ?thesis
    by (simp add: run_two formatTime_stored_values stringOfNat_values)
qed

text \<open>
  The second of two captions is selected, both are deleted and the draft is committed: the
  store is a hole followed by the caption, and its only cue carries the number 2.
\<close>

theorem generateVTT_sparse_numbering:
  "captions (run sparse_session) = [Hole, Elem (Some (bye ''3'' ''4''))] \<and>
   generateVTT (run sparse_session) =
     Inr (''WEBVTT'' @ [CHR 0x0A, CHR 0x0A] @
          ''2'' @ [CHR 0x0A] @ ''00:00:03.000 --> 00:00:04.000'' @ [CHR 0x0A] @
          ''Bye'' @ [CHR 0x0A, CHR 0x0A])"
  by code_simp

end
